theory Spec2Isabelle
  imports Main "HOL-Library.AList"
begin

section \<open>Data model of the desktop window manager\<close>

text \<open>
  The embedding follows \<^verbatim>\<open>src/components/desktop/DesktopView.tsx\<close>.

  A JavaScript object can lack a property, and reading a missing property gives
  \<^verbatim>\<open>undefined\<close>.  The mutators of the component build window objects by
  spreading (\<^verbatim>\<open>{...prev[id], ...updates}\<close>), also when \<^verbatim>\<open>prev[id]\<close> is
  \<^verbatim>\<open>undefined\<close>, so a stored window object may hold only some of the
  properties of \<^verbatim>\<open>WindowState\<close>.  Every property is therefore optional in
  the model: \<open>None\<close> is a missing property.  The argument \<^verbatim>\<open>updates\<close> of
  \<^verbatim>\<open>updateWindowState\<close> is a partial window object of the same type.

  Pixel values are whole numbers (\<open>int\<close>); the source's numbers are doubles,
  which are exact on the integers that occur here.

  Names that clash with constants of HOL carry a prime (\<open>id'\<close>, \<open>size'\<close>);
  the property \<^verbatim>\<open>id\<close> of a virtual desktop is \<open>desktop_id\<close>, and the private
  field \<^verbatim>\<open>activeDesktopId\<close> of the desktop service is \<open>serviceActiveDesktopId\<close>,
  to keep it apart from the component's state variable of the same name.
\<close>

record Position =
  x :: int
  y :: int

record Size =
  width :: int
  height :: int

record WindowState =
  id' :: "string option"
  position :: "Position option"
  size' :: "Size option"
  zIndex :: "int option"
  isMinimized :: "bool option"
  isMaximized :: "bool option"
  isResizing :: "bool option"
  isDragging :: "bool option"
  desktopId :: "string option"
  opacity :: "int option"

record VirtualDesktop =
  desktop_id :: string
  name :: string
  wallpaperUrl :: string
  widgets :: "string list"

record VirtualDesktopService =
  desktops :: "VirtualDesktop list"
  serviceActiveDesktopId :: string

text \<open>
  The state of the \<^verbatim>\<open>DesktopView\<close> component that the window operations read
  and write, together with the desktop service it is subscribed to.  The store
  \<^verbatim>\<open>windows\<close> is a JavaScript object used as a dictionary; it is an association
  list in insertion order, which is the order of \<^verbatim>\<open>Object.values\<close> for keys that
  are not canonical array indices (the application ids are names such as
  \<^verbatim>\<open>calculator\<close>).  An object holds a key once: the store is written with
  \<open>AList.update\<close> (replace in place, or append) and \<open>AList.delete\<close> only,
  which keep the keys distinct, so that the length of the list is
  \<^verbatim>\<open>Object.keys(windows).length\<close>.
\<close>

record DesktopState =
  windows :: "(string \<times> WindowState) list"
  activeId :: "string option"
  nextZIndex :: int
  activeDesktopId :: string
  service :: VirtualDesktopService

datatype error = TypeError

definition Z_INDEX_BASE :: int where
  "Z_INDEX_BASE = 10"

subsection \<open>Object literals and spread\<close>

text \<open>The empty object \<^verbatim>\<open>{}\<close>, also what spreading \<^verbatim>\<open>undefined\<close> contributes.\<close>

definition emptyObject :: WindowState where
  "emptyObject = \<lparr> id' = None, position = None, size' = None, zIndex = None,
     isMinimized = None, isMaximized = None, isResizing = None, isDragging = None,
     desktopId = None, opacity = None \<rparr>"

fun orElse :: "'a option \<Rightarrow> 'a option \<Rightarrow> 'a option" where
  "orElse (Some v) old = Some v"
| "orElse None old = old"

text \<open>\<^verbatim>\<open>{...a, ...b}\<close>: a property of \<open>b\<close> overrides the same property of \<open>a\<close>.\<close>

definition spread :: "WindowState \<Rightarrow> WindowState \<Rightarrow> WindowState" where
  "spread a b = \<lparr> id' = orElse (id' b) (id' a),
     position = orElse (position b) (position a),
     size' = orElse (size' b) (size' a),
     zIndex = orElse (zIndex b) (zIndex a),
     isMinimized = orElse (isMinimized b) (isMinimized a),
     isMaximized = orElse (isMaximized b) (isMaximized a),
     isResizing = orElse (isResizing b) (isResizing a),
     isDragging = orElse (isDragging b) (isDragging a),
     desktopId = orElse (desktopId b) (desktopId a),
     opacity = orElse (opacity b) (opacity a) \<rparr>"

text \<open>
  The store is created as \<^verbatim>\<open>{}\<close> and rebuilt by object literals, so its
  prototype is \<^verbatim>\<open>Object.prototype\<close>: for a key without a record, \<^verbatim>\<open>prev[key]\<close>
  is \<^verbatim>\<open>undefined\<close>, unless the key is a property name of
  \<^verbatim>\<open>Object.prototype\<close>; then it is the inherited value (a function, or
  \<^verbatim>\<open>Object.prototype\<close> itself for \<^verbatim>\<open>__proto__\<close>).  An inherited value is truthy,
  it has no enumerable property of its own, so that spreading it contributes
  nothing, and reading a window property from it gives \<^verbatim>\<open>undefined\<close>.
  \<^verbatim>\<open>Object.keys\<close>, \<^verbatim>\<open>Object.values\<close>, spread and \<^verbatim>\<open>delete\<close> see the records
  only.
\<close>

definition objectPrototypeKeys :: "string list" where
  "objectPrototypeKeys =
     [''constructor'', ''__defineGetter__'', ''__defineSetter__'', ''hasOwnProperty'',
      ''__lookupGetter__'', ''__lookupSetter__'', ''isPrototypeOf'', ''propertyIsEnumerable'',
      ''toString'', ''valueOf'', ''__proto__'', ''toLocaleString'']"

text \<open>\<^verbatim>\<open>prev[k]\<close> is truthy: a record (an object), or an inherited value.\<close>

definition truthyEntry :: "(string \<times> WindowState) list \<Rightarrow> string \<Rightarrow> bool" where
  "truthyEntry prev k \<longleftrightarrow> map_of prev k \<noteq> None \<or> k \<in> set objectPrototypeKeys"

text \<open>
  \<^verbatim>\<open>{...prev[id]}\<close>: the record of the id, or nothing when \<^verbatim>\<open>prev[id]\<close> is
  \<^verbatim>\<open>undefined\<close> or an inherited value.  The same function gives the window
  properties read from \<^verbatim>\<open>prev[id]\<close> when it is not \<^verbatim>\<open>undefined\<close>.
\<close>

definition spreadEntry :: "(string \<times> WindowState) list \<Rightarrow> string \<Rightarrow> WindowState" where
  "spreadEntry prev k = (case map_of prev k of None \<Rightarrow> emptyObject | Some w \<Rightarrow> w)"

text \<open>Truthiness of a boolean property: \<^verbatim>\<open>undefined\<close> is falsy.\<close>

fun truthy :: "bool option \<Rightarrow> bool" where
  "truthy None = False"
| "truthy (Some b) = b"

section \<open>The desktop service\<close>

text \<open>
  \<^verbatim>\<open>VirtualDesktopService\<close>: the constructor, and \<^verbatim>\<open>setActiveDesktop\<close>, which
  returns the service and whether the listeners were notified.
\<close>

definition newVirtualDesktopService :: VirtualDesktopService where
  "newVirtualDesktopService = \<lparr> desktops =
      [ \<lparr> desktop_id = ''desktop-1'', name = ''Main Workspace'',
          wallpaperUrl = ''https://picsum.photos/1920/1080?random=1'', widgets = [] \<rparr>,
        \<lparr> desktop_id = ''desktop-2'', name = ''Financial Analysis'',
          wallpaperUrl = ''https://picsum.photos/1920/1080?random=2'', widgets = [] \<rparr> ],
     serviceActiveDesktopId = ''desktop-1'' \<rparr>"

definition setActiveDesktop :: "string \<Rightarrow> VirtualDesktopService \<Rightarrow> VirtualDesktopService \<times> bool" where
  "setActiveDesktop i svc =
     (if list_ex (\<lambda>d. desktop_id d = i) (desktops svc) \<and> serviceActiveDesktopId svc \<noteq> i
      then (svc\<lparr>serviceActiveDesktopId := i\<rparr>, True)
      else (svc, False))"

text \<open>
  \<^verbatim>\<open>onSwitchDesktop\<close> of the taskbar calls the service; the component's listener
  copies the service's active desktop into its own state when it is notified.
\<close>

definition onSwitchDesktop :: "string \<Rightarrow> DesktopState \<Rightarrow> DesktopState" where
  "onSwitchDesktop i s =
     (case setActiveDesktop i (service s) of
        (svc, notified) \<Rightarrow>
          if notified then s\<lparr>service := svc, activeDesktopId := serviceActiveDesktopId svc\<rparr>
          else s\<lparr>service := svc\<rparr>)"

section \<open>Window operations\<close>

text \<open>
  Each handler runs against the state of the latest render: the values
  \<^verbatim>\<open>nextZIndex\<close> and \<^verbatim>\<open>activeDesktopId\<close> captured by a handler are those of
  the state it is applied to.  The handlers are the operations of the window
  manager: \<^verbatim>\<open>openWindow\<close> opens or restores, \<^verbatim>\<open>closeWindow\<close> closes,
  \<^verbatim>\<open>onMinimize\<close> minimizes, \<^verbatim>\<open>onMaximize\<close> toggles maximize, \<^verbatim>\<open>onFocus\<close>
  focuses, and \<^verbatim>\<open>updateWindowState\<close> patches the geometry of a window.
\<close>

definition initialState :: DesktopState where
  "initialState = \<lparr> windows = [], activeId = None, nextZIndex = Z_INDEX_BASE,
     activeDesktopId = serviceActiveDesktopId newVirtualDesktopService,
     service = newVirtualDesktopService \<rparr>"

definition openWindow :: "string \<Rightarrow> DesktopState \<Rightarrow> DesktopState" where
  "openWindow featureId s =
     s\<lparr> nextZIndex := nextZIndex s + 1,
        activeId := Some featureId,
        windows :=
          (if truthyEntry (windows s) featureId
           then
               AList.update featureId
                 (spread (spreadEntry (windows s) featureId)
                    (emptyObject\<lparr> isMinimized := Some False,
                       zIndex := Some (nextZIndex s + 1),
                       desktopId := Some (activeDesktopId s) \<rparr>))
                 (windows s)
           else
               AList.update featureId
                 \<lparr> id' = Some featureId,
                   position = Some \<lparr> x = 50 + int (length (windows s)) * 20,
                                     y = 50 + int (length (windows s)) * 20 \<rparr>,
                   size' = Some \<lparr> width = 800, height = 600 \<rparr>,
                   zIndex = Some (nextZIndex s + 1),
                   isMinimized = Some False,
                   isMaximized = Some False,
                   isResizing = Some False,
                   isDragging = Some False,
                   desktopId = Some (activeDesktopId s),
                   opacity = Some 1 \<rparr>
                 (windows s)) \<rparr>"

definition closeWindow :: "string \<Rightarrow> DesktopState \<Rightarrow> DesktopState" where
  "closeWindow i s = s\<lparr> windows := AList.delete i (windows s) \<rparr>"

definition updateWindowState :: "string \<Rightarrow> WindowState \<Rightarrow> DesktopState \<Rightarrow> DesktopState" where
  "updateWindowState i updates s =
     s\<lparr> windows := AList.update i (spread (spreadEntry (windows s) i) updates) (windows s) \<rparr>"

definition onMinimize :: "string \<Rightarrow> DesktopState \<Rightarrow> DesktopState" where
  "onMinimize i s =
     s\<lparr> windows := AList.update i
          (spread (spreadEntry (windows s) i) (emptyObject\<lparr> isMinimized := Some True \<rparr>))
          (windows s) \<rparr>"

text \<open>
  \<^verbatim>\<open>onMaximize\<close> reads \<^verbatim>\<open>p[win.id].isMaximized\<close>, which throws a TypeError
  when \<^verbatim>\<open>p[win.id]\<close> is \<^verbatim>\<open>undefined\<close>.  The viewport (\<^verbatim>\<open>window.innerWidth\<close>,
  \<^verbatim>\<open>window.innerHeight\<close>) is read when the handler runs and is a parameter.
\<close>

definition onMaximize :: "int \<Rightarrow> int \<Rightarrow> string \<Rightarrow> DesktopState \<Rightarrow> error + DesktopState" where
  "onMaximize innerWidth innerHeight i s =
     (if \<not> truthyEntry (windows s) i then Inl TypeError
      else
        let w = spreadEntry (windows s) i in
          Inr (s\<lparr> windows := AList.update i
                 (spread w (emptyObject\<lparr>
                    isMaximized := Some (\<not> truthy (isMaximized w)),
                    size' := (if \<not> truthy (isMaximized w)
                              then Some \<lparr> width = innerWidth, height = innerHeight - 60 \<rparr>
                              else Some \<lparr> width = 800, height = 600 \<rparr>),
                    position := (if \<not> truthy (isMaximized w)
                                 then Some \<lparr> x = 0, y = 0 \<rparr>
                                 else Some \<lparr> x = 50, y = 50 \<rparr>) \<rparr>))
                 (windows s) \<rparr>))"

definition onFocus :: "string \<Rightarrow> DesktopState \<Rightarrow> DesktopState" where
  "onFocus i s =
     s\<lparr> activeId := Some i,
        windows := AList.update i
          (spread (spreadEntry (windows s) i) (emptyObject\<lparr> zIndex := Some (nextZIndex s + 1) \<rparr>))
          (windows s),
        nextZIndex := nextZIndex s + 1 \<rparr>"

text \<open>
  The windows the component renders, as a function of the store and the active
  desktop:
  \<^verbatim>\<open>Object.values(windows).filter(w => !w.isMinimized && w.desktopId === activeDesktopId)\<close>.
\<close>

definition getVisibleWindows :: "(string \<times> WindowState) list \<Rightarrow> string \<Rightarrow> WindowState list" where
  "getVisibleWindows ws activeDesktop =
     filter (\<lambda>w. \<not> truthy (isMinimized w) \<and> desktopId w = Some activeDesktop) (map snd ws)"

text \<open>
  The drag controller of \<^verbatim>\<open>Window\<close> (\<^verbatim>\<open>handleMouseMove\<close>, \<^verbatim>\<open>handleMouseUp\<close>)
  reports to the component through \<^verbatim>\<open>onUpdate\<close>, which is \<^verbatim>\<open>updateWindowState\<close>.
  The two functions are what the listeners do while a drag is in progress (the
  listeners are installed only then); \<open>dragOffset\<close> is the offset recorded at
  mouse-down.
\<close>

definition handleMouseMove :: "string \<Rightarrow> int \<Rightarrow> int \<Rightarrow> Position \<Rightarrow> DesktopState \<Rightarrow> DesktopState" where
  "handleMouseMove i clientX clientY dragOffset s =
     updateWindowState i
       (emptyObject\<lparr> position := Some \<lparr> x = clientX - x dragOffset, y = clientY - y dragOffset \<rparr>,
          isDragging := Some True \<rparr>) s"

definition handleMouseUp :: "string \<Rightarrow> DesktopState \<Rightarrow> DesktopState" where
  "handleMouseUp i s = updateWindowState i (emptyObject\<lparr> isDragging := Some False \<rparr>) s"

section \<open>Event sequences\<close>

text \<open>
  The events that change the window state.  \<open>Maximize\<close> carries the viewport
  read by the handler; \<open>MouseMove\<close> carries the pointer position and the drag
  offset.
\<close>

datatype event =
    Open string
  | Close string
  | Minimize string
  | Maximize string int int
  | Focus string
  | MouseMove string int int Position
  | MouseUp string
  | SwitchDesktop string

fun dispatch :: "event \<Rightarrow> DesktopState \<Rightarrow> error + DesktopState" where
  "dispatch (Open i) s = Inr (openWindow i s)"
| "dispatch (Close i) s = Inr (closeWindow i s)"
| "dispatch (Minimize i) s = Inr (onMinimize i s)"
| "dispatch (Maximize i innerWidth innerHeight) s = onMaximize innerWidth innerHeight i s"
| "dispatch (Focus i) s = Inr (onFocus i s)"
| "dispatch (MouseMove i clientX clientY dragOffset) s = Inr (handleMouseMove i clientX clientY dragOffset s)"
| "dispatch (MouseUp i) s = Inr (handleMouseUp i s)"
| "dispatch (SwitchDesktop i) s = Inr (onSwitchDesktop i s)"

text \<open>
  \<^verbatim>\<open>openWindow\<close> is handed to the dock, the taskbar and the context menu and can
  be called with any id, and so can the desktop switch.  The handlers
  \<^verbatim>\<open>onClose\<close>, \<^verbatim>\<open>onMinimize\<close>, \<^verbatim>\<open>onMaximize\<close>, \<^verbatim>\<open>onFocus\<close> and
  \<^verbatim>\<open>onUpdate\<close> exist only as properties of a rendered \<^verbatim>\<open>Window\<close>, one per
  element of the filtered store, bound to that window's id.  \<open>available\<close>
  asks for less: that the store has an entry for the id (\<open>rendered_available\<close>
  below shows that this covers every rendered window).
\<close>

fun available :: "DesktopState \<Rightarrow> event \<Rightarrow> bool" where
  "available s (Open i) = True"
| "available s (Close i) = (map_of (windows s) i \<noteq> None)"
| "available s (Minimize i) = (map_of (windows s) i \<noteq> None)"
| "available s (Maximize i innerWidth innerHeight) = (map_of (windows s) i \<noteq> None)"
| "available s (Focus i) = (map_of (windows s) i \<noteq> None)"
| "available s (MouseMove i clientX clientY dragOffset) = (map_of (windows s) i \<noteq> None)"
| "available s (MouseUp i) = (map_of (windows s) i \<noteq> None)"
| "available s (SwitchDesktop i) = True"

text \<open>
  Running a sequence of events from a state; \<open>None\<close> when an event of the
  sequence has no handler in the state it arrives in, or its handler throws.
\<close>

fun run :: "event list \<Rightarrow> DesktopState \<Rightarrow> DesktopState option" where
  "run [] s = Some s"
| "run (e # es) s =
     (if available s e
      then (case dispatch e s of Inl err \<Rightarrow> None | Inr s' \<Rightarrow> run es s')
      else None)"

text \<open>The id of the window most recently opened or focused by a sequence of events.\<close>

fun activated :: "event \<Rightarrow> string option" where
  "activated (Open i) = Some i"
| "activated (Focus i) = Some i"
| "activated e = None"

definition mostRecentlyActivated :: "event list \<Rightarrow> string option" where
  "mostRecentlyActivated es =
     (case List.map_filter activated es of [] \<Rightarrow> None | i # js \<Rightarrow> Some (last (i # js)))"

text \<open>
  The invariant of the store that the z-order argument rests on: one entry per
  key, every entry that has an \<^verbatim>\<open>id\<close> has its key as \<^verbatim>\<open>id\<close>, every entry has a
  z-index that was issued already, no two entries share a z-index, and an active window that is still
  in the store holds the z-index issued last.
\<close>

definition storeInvariant :: "DesktopState \<Rightarrow> bool" where
  "storeInvariant s \<longleftrightarrow>
     distinct (map fst (windows s))
     \<and> (\<forall>k w. map_of (windows s) k = Some w \<longrightarrow>
           (id' w = Some k \<or> id' w = None) \<and> (\<exists>z. zIndex w = Some z \<and> z \<le> nextZIndex s))
     \<and> (\<forall>k k' w w'. map_of (windows s) k = Some w \<longrightarrow> map_of (windows s) k' = Some w' \<longrightarrow>
           zIndex w = zIndex w' \<longrightarrow> k = k')
     \<and> (\<forall>a w. activeId s = Some a \<longrightarrow> map_of (windows s) a = Some w \<longrightarrow>
           zIndex w = Some (nextZIndex s))"

text \<open>
  No stored window object has an \<^verbatim>\<open>id\<close> other than the key it is stored under
  (an object written by a spread over a missing record has no \<^verbatim>\<open>id\<close> at all).
\<close>

definition keyedById :: "(string \<times> WindowState) list \<Rightarrow> bool" where
  "keyedById ws \<longleftrightarrow> list_all (\<lambda>(k, w). id' w = Some k \<or> id' w = None) ws"

section \<open>Object spread: basic facts\<close>

lemma orElse_None_right [simp]: "orElse v None = v"
  by (cases v) simp_all

lemma spread_emptyObject_left: "spread emptyObject b = b"
  by (simp add: spread_def emptyObject_def)

lemma spread_fields:
  "id' (spread a b) = orElse (id' b) (id' a)"
  "position (spread a b) = orElse (position b) (position a)"
  "size' (spread a b) = orElse (size' b) (size' a)"
  "zIndex (spread a b) = orElse (zIndex b) (zIndex a)"
  "isMinimized (spread a b) = orElse (isMinimized b) (isMinimized a)"
  "isMaximized (spread a b) = orElse (isMaximized b) (isMaximized a)"
  "isResizing (spread a b) = orElse (isResizing b) (isResizing a)"
  "isDragging (spread a b) = orElse (isDragging b) (isDragging a)"
  "desktopId (spread a b) = orElse (desktopId b) (desktopId a)"
  "opacity (spread a b) = orElse (opacity b) (opacity a)"
  by (simp_all add: spread_def)

lemma emptyObject_fields:
  "id' emptyObject = None" "position emptyObject = None" "size' emptyObject = None"
  "zIndex emptyObject = None" "isMinimized emptyObject = None"
  "isMaximized emptyObject = None" "isResizing emptyObject = None"
  "isDragging emptyObject = None" "desktopId emptyObject = None"
  "opacity emptyObject = None"
  by (simp_all add: emptyObject_def)


lemma spread_restore:
  "spread w (emptyObject\<lparr> isMinimized := Some b, zIndex := Some z, desktopId := Some d \<rparr>)
     = w\<lparr> isMinimized := Some b, zIndex := Some z, desktopId := Some d \<rparr>"
  by (cases w) (simp add: spread_def emptyObject_def)

lemma spread_maximize:
  "spread w (emptyObject\<lparr> isMaximized := Some b, size' := sz, position := p \<rparr>)
     = w\<lparr> isMaximized := Some b, size' := orElse sz (size' w), position := orElse p (position w) \<rparr>"
  by (cases w) (simp add: spread_def emptyObject_def)

lemma spread_minimize:
  "spread w (emptyObject\<lparr> isMinimized := Some b \<rparr>) = w\<lparr> isMinimized := Some b \<rparr>"
  by (cases w) (simp add: spread_def emptyObject_def)

lemma spread_focus:
  "spread w (emptyObject\<lparr> zIndex := Some z \<rparr>) = w\<lparr> zIndex := Some z \<rparr>"
  by (cases w) (simp add: spread_def emptyObject_def)

lemma spread_drag:
  "spread w (emptyObject\<lparr> position := Some p, isDragging := Some b \<rparr>)
     = w\<lparr> position := Some p, isDragging := Some b \<rparr>"
  by (cases w) (simp add: spread_def emptyObject_def)

lemma spread_drop:
  "spread w (emptyObject\<lparr> isDragging := Some b \<rparr>) = w\<lparr> isDragging := Some b \<rparr>"
  by (cases w) (simp add: spread_def emptyObject_def)

lemma spreadEntry_Some: "map_of ws k = Some w \<Longrightarrow> spreadEntry ws k = w"
  by (simp add: spreadEntry_def)

lemma spreadEntry_None: "map_of ws k = None \<Longrightarrow> spreadEntry ws k = emptyObject"
  by (simp add: spreadEntry_def)

section \<open>The store invariant\<close>

lemma storeInvariantI:
  assumes "distinct (map fst (windows s))"
    and "\<And>k w. map_of (windows s) k = Some w \<Longrightarrow> id' w = Some k \<or> id' w = None"
    and "\<And>k w. map_of (windows s) k = Some w \<Longrightarrow> \<exists>z. zIndex w = Some z \<and> z \<le> nextZIndex s"
    and "\<And>k k' w w'. map_of (windows s) k = Some w \<Longrightarrow> map_of (windows s) k' = Some w' \<Longrightarrow>
           zIndex w = zIndex w' \<Longrightarrow> k = k'"
    and "\<And>a w. activeId s = Some a \<Longrightarrow> map_of (windows s) a = Some w \<Longrightarrow>
           zIndex w = Some (nextZIndex s)"
  shows "storeInvariant s"
  unfolding storeInvariant_def
  apply (intro conjI allI impI)
      apply (rule assms(1))
     apply (erule assms(2))
    apply (erule assms(3))
   apply (erule (2) assms(4))
  apply (erule (1) assms(5))
  done

lemma storeInvariant_distinct: "storeInvariant s \<Longrightarrow> distinct (map fst (windows s))"
  unfolding storeInvariant_def by blast

lemma storeInvariant_id:
  "storeInvariant s \<Longrightarrow> map_of (windows s) k = Some w \<Longrightarrow> id' w = Some k \<or> id' w = None"
  unfolding storeInvariant_def by meson

lemma storeInvariant_issued:
  "storeInvariant s \<Longrightarrow> map_of (windows s) k = Some w \<Longrightarrow>
     \<exists>z. zIndex w = Some z \<and> z \<le> nextZIndex s"
  unfolding storeInvariant_def by blast

lemma storeInvariant_inj:
  "storeInvariant s \<Longrightarrow> map_of (windows s) k = Some w \<Longrightarrow> map_of (windows s) k' = Some w' \<Longrightarrow>
     zIndex w = zIndex w' \<Longrightarrow> k = k'"
  unfolding storeInvariant_def by blast

lemma storeInvariant_active:
  "storeInvariant s \<Longrightarrow> activeId s = Some a \<Longrightarrow> map_of (windows s) a = Some w \<Longrightarrow>
     zIndex w = Some (nextZIndex s)"
  unfolding storeInvariant_def by blast


lemma map_of_delete_Some:
  "map_of (AList.delete i ws) k = Some w \<Longrightarrow> map_of ws k = Some w"
  by (simp add: AList.delete_conv' split: if_splits)

lemma map_of_update_Some:
  "map_of (AList.update i v ws) k = Some u \<Longrightarrow>
     (k = i \<and> u = v) \<or> (k \<noteq> i \<and> map_of ws k = Some u)"
  by (simp add: AList.update_conv' split: if_splits)

lemma storeInvariant_initialState: "storeInvariant initialState"
  by (simp add: storeInvariant_def initialState_def)

lemma closeWindow_simps:
  "windows (closeWindow i s) = AList.delete i (windows s)"
  "activeId (closeWindow i s) = activeId s"
  "nextZIndex (closeWindow i s) = nextZIndex s"
  "activeDesktopId (closeWindow i s) = activeDesktopId s"
  "service (closeWindow i s) = service s"
  by (simp_all add: closeWindow_def)

lemma storeInvariant_closeWindow:
  assumes inv: "storeInvariant s"
  shows "storeInvariant (closeWindow i s)"
proof (rule storeInvariantI)
  show "distinct (map fst (windows (closeWindow i s)))"
    using storeInvariant_distinct[OF inv]
    by (simp only: closeWindow_simps AList.distinct_delete)
next
  fix k w assume "map_of (windows (closeWindow i s)) k = Some w"
  then have old: "map_of (windows s) k = Some w"
    by (simp only: closeWindow_simps) (rule map_of_delete_Some)
  show "id' w = Some k \<or> id' w = None"
    using inv old by (rule storeInvariant_id)
  show "\<exists>z. zIndex w = Some z \<and> z \<le> nextZIndex (closeWindow i s)"
    using storeInvariant_issued[OF inv old] by (simp only: closeWindow_simps)
next
  fix k k' w w'
  assume "map_of (windows (closeWindow i s)) k = Some w"
    and "map_of (windows (closeWindow i s)) k' = Some w'"
    and eq: "zIndex w = zIndex w'"
  then have "map_of (windows s) k = Some w" and "map_of (windows s) k' = Some w'"
    by (auto simp only: closeWindow_simps dest: map_of_delete_Some)
  with inv show "k = k'" using eq by (rule storeInvariant_inj)
next
  fix a w
  assume "activeId (closeWindow i s) = Some a"
    and "map_of (windows (closeWindow i s)) a = Some w"
  then have "activeId s = Some a" and "map_of (windows s) a = Some w"
    by (auto simp only: closeWindow_simps dest: map_of_delete_Some)
  with inv have "zIndex w = Some (nextZIndex s)" by (rule storeInvariant_active)
  then show "zIndex w = Some (nextZIndex (closeWindow i s))"
    by (simp only: closeWindow_simps)
qed

lemma storeInvariant_replace:
  assumes inv: "storeInvariant s" and old: "map_of (windows s) i = Some w"
    and same_id: "id' v = id' w" and same_z: "zIndex v = zIndex w"
    and s': "windows s' = AList.update i v (windows s)" "activeId s' = activeId s"
            "nextZIndex s' = nextZIndex s"
  shows "storeInvariant s'"
proof -
  have corr: "\<exists>u0. map_of (windows s) k = Some u0 \<and> id' u = id' u0 \<and> zIndex u = zIndex u0"
    if "map_of (windows s') k = Some u" for k u
  proof -
    from that have "(k = i \<and> u = v) \<or> (k \<noteq> i \<and> map_of (windows s) k = Some u)"
      by (simp only: s') (rule map_of_update_Some)
    then show ?thesis
    proof
      assume "k = i \<and> u = v"
      with old same_id same_z show ?thesis by simp
    next
      assume "k \<noteq> i \<and> map_of (windows s) k = Some u"
      then show ?thesis by simp
    qed
  qed
  show ?thesis
  proof (rule storeInvariantI)
    show "distinct (map fst (windows s'))"
      using storeInvariant_distinct[OF inv] by (simp only: s' AList.distinct_update)
  next
    fix k u assume "map_of (windows s') k = Some u"
    from corr[OF this] obtain u0 where u0: "map_of (windows s) k = Some u0"
      "id' u = id' u0" "zIndex u = zIndex u0" by blast
    from storeInvariant_id[OF inv u0(1)] u0(2) show "id' u = Some k \<or> id' u = None" by simp
    from storeInvariant_issued[OF inv u0(1)] u0(3)
    show "\<exists>z. zIndex u = Some z \<and> z \<le> nextZIndex s'" by (simp add: s')
  next
    fix k k' u u'
    assume a: "map_of (windows s') k = Some u" and b: "map_of (windows s') k' = Some u'"
      and eq: "zIndex u = zIndex u'"
    from corr[OF a] obtain u0 where u0: "map_of (windows s) k = Some u0" "zIndex u = zIndex u0"
      by blast
    from corr[OF b] obtain u1 where u1: "map_of (windows s) k' = Some u1" "zIndex u' = zIndex u1"
      by blast
    from eq u0(2) u1(2) have "zIndex u0 = zIndex u1" by simp
    with inv u0(1) u1(1) show "k = k'" by (rule storeInvariant_inj)
  next
    fix a u assume act: "activeId s' = Some a" and a: "map_of (windows s') a = Some u"
    from corr[OF a] obtain u0 where u0: "map_of (windows s) a = Some u0" "zIndex u = zIndex u0"
      by blast
    from act have "activeId s = Some a" by (simp only: s')
    from storeInvariant_active[OF inv this u0(1)] u0(2)
    show "zIndex u = Some (nextZIndex s')" by (simp add: s')
  qed
qed

lemma storeInvariant_raise:
  assumes inv: "storeInvariant s" and new_id: "id' v = Some i \<or> id' v = None"
    and new_z: "zIndex v = Some (nextZIndex s + 1)"
    and s': "windows s' = AList.update i v (windows s)" "activeId s' = Some i"
            "nextZIndex s' = nextZIndex s + 1"
  shows "storeInvariant s'"
proof -
  have look: "(k = i \<and> u = v) \<or> (k \<noteq> i \<and> map_of (windows s) k = Some u)"
    if "map_of (windows s') k = Some u" for k u
    using that by (simp only: s') (rule map_of_update_Some)
  have below: "\<exists>z. zIndex u = Some z \<and> z < nextZIndex s + 1"
    if "map_of (windows s) k = Some u" for k u
    using storeInvariant_issued[OF inv that] by auto
  show ?thesis
  proof (rule storeInvariantI)
    show "distinct (map fst (windows s'))"
      using storeInvariant_distinct[OF inv] by (simp only: s' AList.distinct_update)
  next
    fix k u assume "map_of (windows s') k = Some u"
    from look[OF this] show "id' u = Some k \<or> id' u = None"
    proof
      assume "k = i \<and> u = v" with new_id show ?thesis by simp
    next
      assume "k \<noteq> i \<and> map_of (windows s) k = Some u"
      then have "map_of (windows s) k = Some u" by simp
      with inv show ?thesis by (rule storeInvariant_id)
    qed
    from look[OF \<open>map_of (windows s') k = Some u\<close>]
    show "\<exists>z. zIndex u = Some z \<and> z \<le> nextZIndex s'"
    proof
      assume "k = i \<and> u = v" with new_z show ?thesis by (simp add: s')
    next
      assume "k \<noteq> i \<and> map_of (windows s) k = Some u"
      then have "map_of (windows s) k = Some u" by simp
      from below[OF this] show ?thesis by (auto simp: s')
    qed
  next
    fix k k' u u'
    assume a: "map_of (windows s') k = Some u" and b: "map_of (windows s') k' = Some u'"
      and eq: "zIndex u = zIndex u'"
    from look[OF a] look[OF b] show "k = k'"
    proof (elim disjE conjE)
      assume "k = i" "k' = i" then show ?thesis by simp
    next
      assume "k = i" "u = v" "k' \<noteq> i" "map_of (windows s) k' = Some u'"
      with below[of k' u'] new_z eq show ?thesis by auto
    next
      assume "k \<noteq> i" "map_of (windows s) k = Some u" "k' = i" "u' = v"
      with below[of k u] new_z eq show ?thesis by auto
    next
      assume "map_of (windows s) k = Some u" "map_of (windows s) k' = Some u'"
      with inv show ?thesis using eq by (rule storeInvariant_inj)
    qed
  next
    fix a u assume "activeId s' = Some a" and a: "map_of (windows s') a = Some u"
    then have "a = i" by (simp add: s')
    with a have "u = v" by (simp add: s' AList.update_conv')
    with new_z show "zIndex u = Some (nextZIndex s')" by (simp add: s')
  qed
qed


lemma spreadEntry_id:
  assumes "storeInvariant s"
  shows "id' (spreadEntry (windows s) i) = Some i \<or> id' (spreadEntry (windows s) i) = None"
proof (cases "map_of (windows s) i")
  case None
  then show ?thesis by (simp add: spreadEntry_None emptyObject_def)
next
  case (Some w)
  from storeInvariant_id[OF assms Some] show ?thesis by (simp add: spreadEntry_Some[OF Some])
qed

lemma storeInvariant_openWindow:
  assumes inv: "storeInvariant s"
  shows "storeInvariant (openWindow i s)"
proof (cases "truthyEntry (windows s) i")
  case False
  show ?thesis
    by (rule storeInvariant_raise[OF inv, where i = i and v = "\<lparr> id' = Some i,
          position = Some \<lparr> x = 50 + int (length (windows s)) * 20,
                            y = 50 + int (length (windows s)) * 20 \<rparr>,
          size' = Some \<lparr> width = 800, height = 600 \<rparr>,
          zIndex = Some (nextZIndex s + 1), isMinimized = Some False,
          isMaximized = Some False, isResizing = Some False, isDragging = Some False,
          desktopId = Some (activeDesktopId s), opacity = Some 1 \<rparr>"])
       (simp_all add: openWindow_def False)
next
  case True
  from spreadEntry_id[OF inv, of i] show ?thesis
    by (intro storeInvariant_raise[OF inv, where i = i and
          v = "(spreadEntry (windows s) i)\<lparr> isMinimized := Some False,
                 zIndex := Some (nextZIndex s + 1),
                 desktopId := Some (activeDesktopId s) \<rparr>"])
       (simp_all add: openWindow_def True spread_restore)
qed

lemma storeInvariant_onFocus:
  assumes inv: "storeInvariant s" and old: "map_of (windows s) i = Some w"
  shows "storeInvariant (onFocus i s)"
proof -
  from storeInvariant_id[OF inv old] have "id' w = Some i \<or> id' w = None" .
  then show ?thesis
    by (intro storeInvariant_raise[OF inv, where i = i and
          v = "w\<lparr> zIndex := Some (nextZIndex s + 1) \<rparr>"])
       (simp_all add: onFocus_def spreadEntry_Some[OF old] spread_focus)
qed

lemma storeInvariant_onMinimize:
  assumes inv: "storeInvariant s" and old: "map_of (windows s) i = Some w"
  shows "storeInvariant (onMinimize i s)"
  by (rule storeInvariant_replace[OF inv old, where v = "w\<lparr> isMinimized := Some True \<rparr>"])
     (simp_all add: onMinimize_def spreadEntry_Some[OF old] spread_minimize)

lemma storeInvariant_updateWindowState:
  assumes inv: "storeInvariant s" and old: "map_of (windows s) i = Some w"
    and "id' updates = None" and "zIndex updates = None"
  shows "storeInvariant (updateWindowState i updates s)"
  by (rule storeInvariant_replace[OF inv old, where v = "spread w updates"])
     (simp_all add: updateWindowState_def spreadEntry_Some[OF old] spread_fields assms(3,4))

lemma storeInvariant_handleMouseMove:
  assumes "storeInvariant s" and "map_of (windows s) i = Some w"
  shows "storeInvariant (handleMouseMove i clientX clientY dragOffset s)"
  unfolding handleMouseMove_def
  by (rule storeInvariant_updateWindowState[OF assms]) (simp_all add: emptyObject_def)

lemma storeInvariant_handleMouseUp:
  assumes "storeInvariant s" and "map_of (windows s) i = Some w"
  shows "storeInvariant (handleMouseUp i s)"
  unfolding handleMouseUp_def
  by (rule storeInvariant_updateWindowState[OF assms]) (simp_all add: emptyObject_def)

lemma onMaximize_present:
  assumes "map_of (windows s) i = Some w"
  shows "onMaximize innerWidth innerHeight i s =
     Inr (s\<lparr> windows := AList.update i
            (w\<lparr> isMaximized := Some (\<not> truthy (isMaximized w)),
                size' := (if \<not> truthy (isMaximized w)
                          then Some \<lparr> width = innerWidth, height = innerHeight - 60 \<rparr>
                          else Some \<lparr> width = 800, height = 600 \<rparr>),
                position := (if \<not> truthy (isMaximized w)
                             then Some \<lparr> x = 0, y = 0 \<rparr>
                             else Some \<lparr> x = 50, y = 50 \<rparr>) \<rparr>)
            (windows s) \<rparr>)"
  using assms
  by (simp add: onMaximize_def truthyEntry_def spreadEntry_Some Let_def spread_maximize)

lemma storeInvariant_onMaximize:
  assumes inv: "storeInvariant s" and old: "map_of (windows s) i = Some w"
    and res: "onMaximize innerWidth innerHeight i s = Inr s'"
  shows "storeInvariant s'"
proof -
  let ?v = "w\<lparr> isMaximized := Some (\<not> truthy (isMaximized w)),
                size' := (if \<not> truthy (isMaximized w)
                          then Some \<lparr> width = innerWidth, height = innerHeight - 60 \<rparr>
                          else Some \<lparr> width = 800, height = 600 \<rparr>),
                position := (if \<not> truthy (isMaximized w)
                             then Some \<lparr> x = 0, y = 0 \<rparr>
                             else Some \<lparr> x = 50, y = 50 \<rparr>) \<rparr>"
  from res onMaximize_present[OF old, of innerWidth innerHeight]
  have s': "s' = s\<lparr> windows := AList.update i ?v (windows s) \<rparr>"
    by simp
  show ?thesis
    by (rule storeInvariant_replace[OF inv old, where v = ?v]) (simp_all add: s')
qed

lemma onSwitchDesktop_frame:
  "windows (onSwitchDesktop i s) = windows s"
  "activeId (onSwitchDesktop i s) = activeId s"
  "nextZIndex (onSwitchDesktop i s) = nextZIndex s"
  by (simp_all add: onSwitchDesktop_def split: prod.splits)

lemma storeInvariant_onSwitchDesktop:
  assumes "storeInvariant s"
  shows "storeInvariant (onSwitchDesktop i s)"
  using assms unfolding storeInvariant_def onSwitchDesktop_frame .

lemma storeInvariant_dispatch:
  assumes inv: "storeInvariant s" and av: "available s e" and d: "dispatch e s = Inr s'"
  shows "storeInvariant s'"
proof (cases e)
  case (Open i)
  with d have "s' = openWindow i s" by simp
  then show ?thesis using inv by (simp only: storeInvariant_openWindow)
next
  case (Close i)
  with d have "s' = closeWindow i s" by simp
  then show ?thesis using inv by (simp only: storeInvariant_closeWindow)
next
  case (Minimize i)
  with d av obtain w where "s' = onMinimize i s" "map_of (windows s) i = Some w" by auto
  then show ?thesis using inv by (simp only: storeInvariant_onMinimize)
next
  case (Maximize i innerWidth innerHeight)
  with d av obtain w where "onMaximize innerWidth innerHeight i s = Inr s'"
    "map_of (windows s) i = Some w" by auto
  with inv show ?thesis by (simp only: storeInvariant_onMaximize)
next
  case (Focus i)
  with d av obtain w where "s' = onFocus i s" "map_of (windows s) i = Some w" by auto
  then show ?thesis using inv by (simp only: storeInvariant_onFocus)
next
  case (MouseMove i clientX clientY dragOffset)
  with d av obtain w where "s' = handleMouseMove i clientX clientY dragOffset s"
    "map_of (windows s) i = Some w" by auto
  then show ?thesis using inv by (simp only: storeInvariant_handleMouseMove)
next
  case (MouseUp i)
  with d av obtain w where "s' = handleMouseUp i s" "map_of (windows s) i = Some w" by auto
  then show ?thesis using inv by (simp only: storeInvariant_handleMouseUp)
next
  case (SwitchDesktop i)
  with d have "s' = onSwitchDesktop i s" by simp
  then show ?thesis using inv by (simp only: storeInvariant_onSwitchDesktop)
qed

lemma run_Cons_Some:
  assumes "run (e # es) s = Some s'"
  obtains s1 where "available s e" and "dispatch e s = Inr s1" and "run es s1 = Some s'"
  using assms by (auto split: if_splits sum.splits)

lemma storeInvariant_run:
  assumes "storeInvariant s" and "run es s = Some s'"
  shows "storeInvariant s'"
  using assms
proof (induction es arbitrary: s)
  case Nil
  then show ?case by simp
next
  case (Cons e es)
  from Cons.prems(2) obtain s1 where av: "available s e" and d: "dispatch e s = Inr s1"
    and r: "run es s1 = Some s'"
    by (rule run_Cons_Some)
  from Cons.prems(1) av d have "storeInvariant s1" by (rule storeInvariant_dispatch)
  then show ?case using r by (rule Cons.IH)
qed

lemma activeId_dispatch:
  assumes "dispatch e s = Inr s'"
  shows "activeId s' = (case activated e of None \<Rightarrow> activeId s | Some i \<Rightarrow> Some i)"
  using assms
  by (cases e)
     (auto simp: openWindow_def closeWindow_def onMinimize_def onMaximize_def onFocus_def
        handleMouseMove_def handleMouseUp_def updateWindowState_def onSwitchDesktop_frame
        Let_def split: if_splits)

lemma activeId_run:
  assumes "run es s = Some s'"
  shows "activeId s' = (case List.map_filter activated es of [] \<Rightarrow> activeId s
                        | i # js \<Rightarrow> Some (last (i # js)))"
  using assms
proof (induction es arbitrary: s)
  case Nil
  then show ?case by (simp add: List.map_filter_simps)
next
  case (Cons e es)
  from Cons.prems obtain s1 where d: "dispatch e s = Inr s1" and r: "run es s1 = Some s'"
    by (rule run_Cons_Some)
  show ?case
    using Cons.IH[OF r] activeId_dispatch[OF d]
    by (auto simp: List.map_filter_simps split: option.splits list.splits)
qed

lemma distinct_values_of_injective:
  assumes d: "distinct (map fst al)"
    and inj: "\<forall>k k' w w'. map_of al k = Some w \<longrightarrow> map_of al k' = Some w' \<longrightarrow> f w = f w' \<longrightarrow> k = k'"
  shows "distinct (map (\<lambda>(k, w). f w) al)"
proof -
  have "inj_on (\<lambda>(k, w). f w) (set al)"
  proof (rule inj_onI)
    fix p q assume p: "p \<in> set al" and q: "q \<in> set al"
      and eq: "(\<lambda>(k, w). f w) p = (\<lambda>(k, w). f w) q"
    obtain k w where pk: "p = (k, w)" by (cases p)
    obtain k' w' where qk: "q = (k', w')" by (cases q)
    from p pk d have 1: "map_of al k = Some w" by (simp only: map_of_eq_Some_iff)
    from q qk d have 2: "map_of al k' = Some w'" by (simp only: map_of_eq_Some_iff)
    from eq pk qk have "f w = f w'" by simp
    with inj 1 2 have "k = k'" by blast
    with 1 2 have "w = w'" by simp
    with \<open>k = k'\<close> pk qk show "p = q" by simp
  qed
  moreover from d have "distinct al" by (metis distinct_map)
  ultimately show ?thesis by (simp only: distinct_map simp_thms)
qed

section \<open>Concrete stores used in the examples\<close>

lemma update_absent_appends:
  "map_of al k = None \<Longrightarrow> AList.update k v al = al @ [(k, v)]"
  by (induction al) (auto split: if_splits)

lemmas demo_defs = initialState_def Z_INDEX_BASE_def newVirtualDesktopService_def
  openWindow_def closeWindow_def updateWindowState_def onMinimize_def onFocus_def
  onMaximize_def handleMouseMove_def handleMouseUp_def onSwitchDesktop_def setActiveDesktop_def
  spread_def spreadEntry_def emptyObject_def getVisibleWindows_def truthyEntry_def
  objectPrototypeKeys_def Let_def

lemma settings_after_calculator:
  "map_of (windows (openWindow ''settings'' (openWindow ''calculator'' initialState))) ''settings''
   = Some \<lparr> id' = Some ''settings'', position = Some \<lparr> x = 70, y = 70 \<rparr>,
       size' = Some \<lparr> width = 800, height = 600 \<rparr>, zIndex = Some 12,
       isMinimized = Some False, isMaximized = Some False, isResizing = Some False,
       isDragging = Some False, desktopId = Some ''desktop-1'', opacity = Some 1 \<rparr>"
  by (simp add: demo_defs)

section \<open>Updates that target an id without a record\<close>

text \<open>
  Claim C1, as amended.  \<^verbatim>\<open>updateWindowState\<close> has no check for a missing id and
  returns nothing.  For an id that has no record in the store, every existing
  record is left as it is, but the call is not a no-op: it appends a record
  under that id which holds exactly the properties of the update.
\<close>

theorem updateWindowState_unknown_id_adds_entry:
  assumes "map_of (windows s) i = None"
  shows "updateWindowState i updates s = s\<lparr> windows := windows s @ [(i, updates)] \<rparr>
         \<and> map_of (windows (updateWindowState i updates s)) i = Some updates
         \<and> (\<forall>j. j \<noteq> i \<longrightarrow>
               map_of (windows (updateWindowState i updates s)) j = map_of (windows s) j)"
proof -
  have w: "windows (updateWindowState i updates s) = AList.update i updates (windows s)"
    using assms
    by (simp add: updateWindowState_def spreadEntry_None spread_emptyObject_left)
  have "updateWindowState i updates s = s\<lparr> windows := windows s @ [(i, updates)] \<rparr>"
    using assms
    by (simp add: updateWindowState_def spreadEntry_None spread_emptyObject_left
          update_absent_appends)
  moreover have "map_of (windows (updateWindowState i updates s)) i = Some updates"
    by (simp only: w AList.update_conv') simp
  moreover have "\<forall>j. j \<noteq> i \<longrightarrow>
      map_of (windows (updateWindowState i updates s)) j = map_of (windows s) j"
    by (simp only: w AList.update_conv') simp
  ultimately show ?thesis by blast
qed

theorem updateWindowState_unknown_id_adds_entry_witness:
  "map_of (windows initialState) ''calculator'' = None \<and>
   updateWindowState ''calculator'' (emptyObject\<lparr> isDragging := Some False \<rparr>) initialState
     = initialState\<lparr> windows := [(''calculator'', emptyObject\<lparr> isDragging := Some False \<rparr>)] \<rparr>"
  using updateWindowState_unknown_id_adds_entry
          [of initialState "''calculator''" "emptyObject\<lparr> isDragging := Some False \<rparr>"]
  by (simp add: initialState_def)

text \<open>
  The claim as stated fails: in the initial state the store has no record for
  \<^verbatim>\<open>calculator\<close>, and the update that ends a drag changes the store.
\<close>

theorem updateWindowState_unknown_id_counterexample:
  "map_of (windows initialState) ''calculator'' = None \<and>
   windows (updateWindowState ''calculator'' (emptyObject\<lparr> isDragging := Some False \<rparr>) initialState)
     \<noteq> windows initialState"
  by (simp add: demo_defs)

section \<open>Geometry updates\<close>

text \<open>
  Claim C7, as amended.  No update is rejected, and \<^verbatim>\<open>updateWindowState\<close> does
  not clamp: a size carried by the update is stored exactly as given, a negative
  width or height included.
\<close>

theorem updateWindowState_stores_size_as_given:
  assumes "size' updates = Some sz"
  shows "Option.bind (map_of (windows (updateWindowState i updates s)) i) size' = Some sz"
  using assms by (simp add: updateWindowState_def AList.update_conv' spread_fields)

theorem updateWindowState_stores_size_as_given_witness:
  "size' (emptyObject\<lparr> size' := Some \<lparr> width = - 5, height = - 1 \<rparr> \<rparr>)
     = Some \<lparr> width = - 5, height = - 1 \<rparr> \<and>
   Option.bind
     (map_of (windows (updateWindowState ''calculator''
         (emptyObject\<lparr> size' := Some \<lparr> width = - 5, height = - 1 \<rparr> \<rparr>)
         (openWindow ''calculator'' initialState))) ''calculator'') size'
   = Some \<lparr> width = - 5, height = - 1 \<rparr>"
  using updateWindowState_stores_size_as_given
          [of "emptyObject\<lparr> size' := Some \<lparr> width = - 5, height = - 1 \<rparr> \<rparr>"
              "\<lparr> width = - 5, height = - 1 \<rparr>" "''calculator''"
              "openWindow ''calculator'' initialState"]
  by (simp add: emptyObject_def)

text \<open>
  The claim as stated fails: a resize of the open \<^verbatim>\<open>calculator\<close> window to
  width \<open>-5\<close> leaves width \<open>-5\<close> in the store.
\<close>

theorem updateWindowState_negative_size_counterexample:
  "Option.bind
     (map_of (windows (updateWindowState ''calculator''
         (emptyObject\<lparr> size' := Some \<lparr> width = - 5, height = 600 \<rparr> \<rparr>)
         (openWindow ''calculator'' initialState))) ''calculator'') size'
   = Some \<lparr> width = - 5, height = 600 \<rparr>"
  by (simp add: demo_defs)

section \<open>Maximize and restore\<close>

text \<open>
  Claim C4.  \<^verbatim>\<open>onMaximize\<close> on a window of the store succeeds and toggles: a
  window that is not maximized gets size (\<open>innerWidth\<close>, \<open>innerHeight - 60\<close>),
  position (0, 0) and \<^verbatim>\<open>isMaximized = true\<close>; a maximized window gets size
  (800, 600), position (50, 50) and \<^verbatim>\<open>isMaximized = false\<close>, whatever its
  geometry was before it was maximized.  No other property changes.
\<close>

theorem maximizeToggle_fixed_geometry:
  assumes "map_of (windows s) i = Some w"
  shows "\<exists>s'. onMaximize innerWidth innerHeight i s = Inr s' \<and>
           map_of (windows s') i = Some
             (if truthy (isMaximized w)
              then w\<lparr> isMaximized := Some False,
                      size' := Some \<lparr> width = 800, height = 600 \<rparr>,
                      position := Some \<lparr> x = 50, y = 50 \<rparr> \<rparr>
              else w\<lparr> isMaximized := Some True,
                      size' := Some \<lparr> width = innerWidth, height = innerHeight - 60 \<rparr>,
                      position := Some \<lparr> x = 0, y = 0 \<rparr> \<rparr>)"
  using assms by (simp add: onMaximize_present AList.update_conv')

text \<open>
  The second window of a session, created at (70, 70), is maximized on a
  1920 x 1080 viewport.
\<close>

theorem maximizeToggle_fixed_geometry_witness:
  "map_of (windows (openWindow ''settings'' (openWindow ''calculator'' initialState))) ''settings''
   = Some \<lparr> id' = Some ''settings'', position = Some \<lparr> x = 70, y = 70 \<rparr>,
       size' = Some \<lparr> width = 800, height = 600 \<rparr>, zIndex = Some 12,
       isMinimized = Some False, isMaximized = Some False, isResizing = Some False,
       isDragging = Some False, desktopId = Some ''desktop-1'', opacity = Some 1 \<rparr>
   \<and> (\<exists>s'. onMaximize 1920 1080 ''settings''
              (openWindow ''settings'' (openWindow ''calculator'' initialState)) = Inr s' \<and>
         map_of (windows s') ''settings''
         = Some \<lparr> id' = Some ''settings'', position = Some \<lparr> x = 0, y = 0 \<rparr>,
             size' = Some \<lparr> width = 1920, height = 1020 \<rparr>, zIndex = Some 12,
             isMinimized = Some False, isMaximized = Some True, isResizing = Some False,
             isDragging = Some False, desktopId = Some ''desktop-1'', opacity = Some 1 \<rparr>)"
  using maximizeToggle_fixed_geometry [OF settings_after_calculator, of 1920 1080]
    settings_after_calculator
  by simp

section \<open>Switching the desktop\<close>

text \<open>
  Claim C8.  For a desktop id that is not the id of a desktop of the service,
  \<^verbatim>\<open>setActiveDesktop\<close> changes nothing and notifies nobody, and the whole state
  after the switch is the state before it; in particular the active desktop id
  is the same.
\<close>

theorem setActiveDesktop_unknown_noop:
  assumes "i \<notin> desktop_id ` set (desktops (service s))"
  shows "setActiveDesktop i (service s) = (service s, False) \<and> onSwitchDesktop i s = s"
proof -
  have "\<not> list_ex (\<lambda>d. desktop_id d = i) (desktops (service s))"
    using assms by (auto simp: list_ex_iff)
  then have "setActiveDesktop i (service s) = (service s, False)"
    by (simp add: setActiveDesktop_def)
  then show ?thesis
    by (simp add: onSwitchDesktop_def)
qed

theorem setActiveDesktop_unknown_noop_witness:
  "''desktop-3'' \<notin> desktop_id ` set (desktops (service initialState)) \<and>
   setActiveDesktop ''desktop-3'' (service initialState) = (service initialState, False) \<and>
   onSwitchDesktop ''desktop-3'' initialState = initialState \<and>
   activeDesktopId (onSwitchDesktop ''desktop-3'' initialState) = ''desktop-1''"
proof -
  have h: "''desktop-3'' \<notin> desktop_id ` set (desktops (service initialState))"
    by (simp add: initialState_def newVirtualDesktopService_def)
  from setActiveDesktop_unknown_noop[OF h] h show ?thesis
    by (simp add: initialState_def newVirtualDesktopService_def)
qed

section \<open>Restoring an open window\<close>

text \<open>
  Claim C10.  \<^verbatim>\<open>openWindow\<close> on an id that has a record keeps the position and
  the size of the record: the record changes in \<^verbatim>\<open>isMinimized\<close>, \<^verbatim>\<open>zIndex\<close> and
  \<^verbatim>\<open>desktopId\<close> only, every other record stays as it is, and the id becomes the
  active id.
\<close>

theorem openWindow_existing_keeps_geometry:
  assumes "map_of (windows s) i = Some w"
  shows "map_of (windows (openWindow i s)) i =
           Some (w\<lparr> isMinimized := Some False, zIndex := Some (nextZIndex s + 1),
                    desktopId := Some (activeDesktopId s) \<rparr>)
         \<and> Option.bind (map_of (windows (openWindow i s)) i) position = position w
         \<and> Option.bind (map_of (windows (openWindow i s)) i) size' = size' w
         \<and> (\<forall>j. j \<noteq> i \<longrightarrow> map_of (windows (openWindow i s)) j = map_of (windows s) j)
         \<and> activeId (openWindow i s) = Some i"
  using assms
  by (simp add: openWindow_def truthyEntry_def spreadEntry_Some spread_restore AList.update_conv')

text \<open>
  The \<^verbatim>\<open>settings\<close> window, created at (70, 70), is minimized and restored from
  the taskbar.
\<close>

theorem openWindow_existing_keeps_geometry_witness:
  "map_of (windows (onMinimize ''settings''
       (openWindow ''settings'' (openWindow ''calculator'' initialState)))) ''settings''
   = Some \<lparr> id' = Some ''settings'', position = Some \<lparr> x = 70, y = 70 \<rparr>,
       size' = Some \<lparr> width = 800, height = 600 \<rparr>, zIndex = Some 12,
       isMinimized = Some True, isMaximized = Some False, isResizing = Some False,
       isDragging = Some False, desktopId = Some ''desktop-1'', opacity = Some 1 \<rparr>
   \<and> Option.bind (map_of (windows (openWindow ''settings'' (onMinimize ''settings''
       (openWindow ''settings'' (openWindow ''calculator'' initialState))))) ''settings'') position
     = Some \<lparr> x = 70, y = 70 \<rparr>
   \<and> Option.bind (map_of (windows (openWindow ''settings'' (onMinimize ''settings''
       (openWindow ''settings'' (openWindow ''calculator'' initialState))))) ''settings'') size'
     = Some \<lparr> width = 800, height = 600 \<rparr>"
proof -
  have h: "map_of (windows (onMinimize ''settings''
       (openWindow ''settings'' (openWindow ''calculator'' initialState)))) ''settings''
   = Some \<lparr> id' = Some ''settings'', position = Some \<lparr> x = 70, y = 70 \<rparr>,
       size' = Some \<lparr> width = 800, height = 600 \<rparr>, zIndex = Some 12,
       isMinimized = Some True, isMaximized = Some False, isResizing = Some False,
       isDragging = Some False, desktopId = Some ''desktop-1'', opacity = Some 1 \<rparr>"
    by (simp add: demo_defs)
  from openWindow_existing_keeps_geometry[OF h] h show ?thesis
    by simp
qed

section \<open>Z-order and the active window\<close>

lemma storeInvariant_keyedById:
  assumes "storeInvariant s"
  shows "keyedById (windows s)"
  unfolding keyedById_def list_all_iff
proof (intro ballI)
  fix p assume p: "p \<in> set (windows s)"
  obtain k w where pk: "p = (k, w)" by (cases p)
  from p pk storeInvariant_distinct[OF assms] have "map_of (windows s) k = Some w" by simp
  from storeInvariant_id[OF assms this] pk
  show "case p of (k, w) \<Rightarrow> id' w = Some k \<or> id' w = None" by simp
qed

text \<open>
  Claim C2.  In every state that a sequence of events reaches from the initial
  state, the store has one record per key, every record has a z-index, the
  z-indices of the records are pairwise distinct, the active id is the id most
  recently opened or focused, and when the active id still has a record, that
  record's z-index is at least the z-index of every record of the store.
\<close>

theorem zIndex_unique_active_on_top:
  assumes "run es initialState = Some s"
  shows "distinct (map fst (windows s))
       \<and> distinct (map (\<lambda>(k, w). zIndex w) (windows s))
       \<and> (\<forall>(k, w) \<in> set (windows s). zIndex w \<noteq> None)
       \<and> activeId s = mostRecentlyActivated es
       \<and> (\<forall>a w. activeId s = Some a \<longrightarrow> map_of (windows s) a = Some w \<longrightarrow>
            (\<forall>(k, w') \<in> set (windows s).
               \<exists>z z'. zIndex w = Some z \<and> zIndex w' = Some z' \<and> z' \<le> z))"
proof -
  have inv: "storeInvariant s"
    using storeInvariant_initialState assms by (rule storeInvariant_run)
  have d: "distinct (map fst (windows s))"
    using inv by (rule storeInvariant_distinct)
  have look: "map_of (windows s) k = Some w" if "(k, w) \<in> set (windows s)" for k w
    using that d by simp
  have inj: "\<forall>k k' w w'. map_of (windows s) k = Some w \<longrightarrow>
      map_of (windows s) k' = Some w' \<longrightarrow> zIndex w = zIndex w' \<longrightarrow> k = k'"
    using storeInvariant_inj[OF inv] by blast
  have 2: "distinct (map (\<lambda>(k, w). zIndex w) (windows s))"
    by (rule distinct_values_of_injective[where f = zIndex, OF d inj])
  have 3: "\<forall>(k, w) \<in> set (windows s). zIndex w \<noteq> None"
  proof -
    have "zIndex w \<noteq> None" if "(k, w) \<in> set (windows s)" for k w
      using storeInvariant_issued[OF inv look[OF that]] by auto
    then show ?thesis by auto
  qed
  have 4: "activeId s = mostRecentlyActivated es"
  proof -
    have "activeId initialState = None" by (simp add: initialState_def)
    with activeId_run[OF assms] show ?thesis
      by (simp add: mostRecentlyActivated_def split: list.splits)
  qed
  have 5: "\<forall>a w. activeId s = Some a \<longrightarrow> map_of (windows s) a = Some w \<longrightarrow>
            (\<forall>(k, w') \<in> set (windows s).
               \<exists>z z'. zIndex w = Some z \<and> zIndex w' = Some z' \<and> z' \<le> z)"
  proof -
    have "\<exists>z z'. zIndex w = Some z \<and> zIndex w' = Some z' \<and> z' \<le> z"
      if act: "activeId s = Some a" and aw: "map_of (windows s) a = Some w"
        and mem: "(k, w') \<in> set (windows s)" for a w k w'
    proof -
      from storeInvariant_active[OF inv act aw] have top: "zIndex w = Some (nextZIndex s)" .
      from storeInvariant_issued[OF inv look[OF mem]]
      obtain z' where "zIndex w' = Some z'" "z' \<le> nextZIndex s" by blast
      with top show ?thesis by simp
    qed
    then show ?thesis by blast
  qed
  from d 2 3 4 5 show ?thesis by blast
qed

lemma demo_run:
  "run [Open ''calculator'', Open ''settings'', Focus ''calculator'', Minimize ''settings'',
        MouseMove ''calculator'' 300 200 \<lparr> x = 10, y = 5 \<rparr>, Close ''settings'',
        Open ''settings''] initialState
   = Some (openWindow ''settings'' (closeWindow ''settings''
       (handleMouseMove ''calculator'' 300 200 \<lparr> x = 10, y = 5 \<rparr>
         (onMinimize ''settings'' (onFocus ''calculator''
           (openWindow ''settings'' (openWindow ''calculator'' initialState)))))))"
  by (simp add: demo_defs)


text \<open>
  A session with two windows: both are opened, the first is focused and dragged,
  the second is minimized, closed and opened again.
\<close>

theorem zIndex_unique_active_on_top_witness:
  "run [Open ''calculator'', Open ''settings'', Focus ''calculator'', Minimize ''settings'',
        MouseMove ''calculator'' 300 200 \<lparr> x = 10, y = 5 \<rparr>, Close ''settings'',
        Open ''settings''] initialState
   = Some (openWindow ''settings'' (closeWindow ''settings''
       (handleMouseMove ''calculator'' 300 200 \<lparr> x = 10, y = 5 \<rparr>
         (onMinimize ''settings'' (onFocus ''calculator''
           (openWindow ''settings'' (openWindow ''calculator'' initialState)))))))
   \<and> distinct (map (\<lambda>(k, w). zIndex w) (windows
         (openWindow ''settings'' (closeWindow ''settings''
           (handleMouseMove ''calculator'' 300 200 \<lparr> x = 10, y = 5 \<rparr>
             (onMinimize ''settings'' (onFocus ''calculator''
               (openWindow ''settings'' (openWindow ''calculator'' initialState)))))))))
   \<and> map (\<lambda>(k, w). zIndex w) (windows
         (openWindow ''settings'' (closeWindow ''settings''
           (handleMouseMove ''calculator'' 300 200 \<lparr> x = 10, y = 5 \<rparr>
             (onMinimize ''settings'' (onFocus ''calculator''
               (openWindow ''settings'' (openWindow ''calculator'' initialState))))))))
       = [Some 13, Some 14]
   \<and> activeId (openWindow ''settings'' (closeWindow ''settings''
           (handleMouseMove ''calculator'' 300 200 \<lparr> x = 10, y = 5 \<rparr>
             (onMinimize ''settings'' (onFocus ''calculator''
               (openWindow ''settings'' (openWindow ''calculator'' initialState)))))))
       = Some ''settings''"
proof -
  note r = demo_run
  have z: "map (\<lambda>(k, w). zIndex w) (windows
         (openWindow ''settings'' (closeWindow ''settings''
           (handleMouseMove ''calculator'' 300 200 \<lparr> x = 10, y = 5 \<rparr>
             (onMinimize ''settings'' (onFocus ''calculator''
               (openWindow ''settings'' (openWindow ''calculator'' initialState))))))))
       = [Some 13, Some 14]"
    by (simp add: demo_defs)
  have a: "activeId (openWindow ''settings'' (closeWindow ''settings''
           (handleMouseMove ''calculator'' 300 200 \<lparr> x = 10, y = 5 \<rparr>
             (onMinimize ''settings'' (onFocus ''calculator''
               (openWindow ''settings'' (openWindow ''calculator'' initialState)))))))
       = Some ''settings''"
    by (simp add: openWindow_def)
  from zIndex_unique_active_on_top[OF r] r z a show ?thesis by blast
qed

section \<open>Visible windows\<close>

lemma rendered_available:
  assumes inv: "storeInvariant s"
    and vis: "w \<in> set (getVisibleWindows (windows s) (activeDesktopId s))"
    and wid: "id' w = Some i"
  shows "map_of (windows s) i \<noteq> None"
proof -
  from vis obtain k where mem: "(k, w) \<in> set (windows s)"
    by (auto simp: getVisibleWindows_def)
  with storeInvariant_distinct[OF inv] have look: "map_of (windows s) k = Some w" by simp
  from storeInvariant_id[OF inv look] wid have "k = i" by simp
  with look show ?thesis by simp
qed

lemma set_delete: "set (AList.delete i ws) = {p \<in> set ws. fst p \<noteq> i}"
  by (auto simp: AList.delete_eq)

text \<open>
  Claim C6.  For every store and every desktop id, the visible windows are
  exactly the stored window objects whose \<^verbatim>\<open>desktopId\<close> is that desktop and which
  pass \<^verbatim>\<open>!w.isMinimized\<close> (the property is \<open>false\<close>, or absent).  After
  \<^verbatim>\<open>closeWindow\<close> the store has no record under the closed id, and, in a store
  where no object has an \<^verbatim>\<open>id\<close> other than its key (every store that a sequence
  of events reaches is one, by \<open>storeInvariant_keyedById\<close>), no visible window
  of any desktop has that id.
\<close>

theorem getVisibleWindows_exact_and_close:
  "(w \<in> set (getVisibleWindows ws d) \<longleftrightarrow>
      w \<in> snd ` set ws \<and> desktopId w = Some d \<and>
      (isMinimized w = Some False \<or> isMinimized w = None))
   \<and> map_of (windows (closeWindow i s)) i = None
   \<and> (keyedById (windows s) \<longrightarrow>
        (\<forall>d'. \<forall>v \<in> set (getVisibleWindows (windows (closeWindow i s)) d'). id' v \<noteq> Some i))"
proof -
  have t: "\<not> truthy b \<longleftrightarrow> b = Some False \<or> b = None" for b
    by (cases b) auto
  have 1: "w \<in> set (getVisibleWindows ws d) \<longleftrightarrow>
      w \<in> snd ` set ws \<and> desktopId w = Some d \<and>
      (isMinimized w = Some False \<or> isMinimized w = None)"
    by (auto simp: getVisibleWindows_def t)
  have 2: "map_of (windows (closeWindow i s)) i = None"
    by (simp add: closeWindow_def AList.delete_conv')
  have 3: "id' v \<noteq> Some i"
    if k: "keyedById (windows s)"
      and v: "v \<in> set (getVisibleWindows (windows (closeWindow i s)) d')" for d' v
  proof -
    from v obtain j where "(j, v) \<in> set (AList.delete i (windows s))"
      by (auto simp: getVisibleWindows_def closeWindow_def)
    then have "(j, v) \<in> set (windows s)" and "j \<noteq> i"
      by (auto simp: set_delete)
    with k have "id' v = Some j \<or> id' v = None" by (auto simp: keyedById_def list_all_iff)
    with \<open>j \<noteq> i\<close> show ?thesis by auto
  qed
  from 1 2 3 show ?thesis by blast
qed


text \<open>
  Two windows on the first desktop; the first one is closed.
\<close>

theorem getVisibleWindows_exact_and_close_witness:
  "keyedById (windows (openWindow ''settings'' (openWindow ''calculator'' initialState)))
   \<and> Some ''calculator'' \<notin> set (map (id') (getVisibleWindows (windows (closeWindow ''calculator''
          (openWindow ''settings'' (openWindow ''calculator'' initialState)))) ''desktop-1''))
   \<and> Some ''calculator'' \<notin> set (map (id') (getVisibleWindows (windows (closeWindow ''calculator''
          (openWindow ''settings'' (openWindow ''calculator'' initialState)))) ''desktop-2''))
   \<and> map (id') (getVisibleWindows (windows (closeWindow ''calculator''
          (openWindow ''settings'' (openWindow ''calculator'' initialState)))) ''desktop-1'')
       = [Some ''settings'']
   \<and> map (id') (getVisibleWindows (windows
          (openWindow ''settings'' (openWindow ''calculator'' initialState))) ''desktop-1'')
       = [Some ''calculator'', Some ''settings'']"
proof -
  have k: "keyedById (windows (openWindow ''settings'' (openWindow ''calculator'' initialState)))"
    by (simp add: keyedById_def demo_defs)
  have e1: "map (id') (getVisibleWindows (windows (closeWindow ''calculator''
          (openWindow ''settings'' (openWindow ''calculator'' initialState)))) ''desktop-1'')
       = [Some ''settings'']"
    by (simp add: demo_defs)
  have e2: "map (id') (getVisibleWindows (windows
          (openWindow ''settings'' (openWindow ''calculator'' initialState))) ''desktop-1'')
       = [Some ''calculator'', Some ''settings'']"
    by (simp add: demo_defs)
  note closed = getVisibleWindows_exact_and_close
         [where i = "''calculator''"
            and s = "openWindow ''settings'' (openWindow ''calculator'' initialState)",
          THEN conjunct2, THEN conjunct2, rule_format, OF k]
  have n: "Some ''calculator'' \<notin> set (map (id') (getVisibleWindows (windows (closeWindow ''calculator''
          (openWindow ''settings'' (openWindow ''calculator'' initialState)))) d))" for d
  proof
    assume "Some ''calculator'' \<in> set (map (id') (getVisibleWindows (windows (closeWindow ''calculator''
          (openWindow ''settings'' (openWindow ''calculator'' initialState)))) d))"
    then obtain v where "v \<in> set (getVisibleWindows (windows (closeWindow ''calculator''
          (openWindow ''settings'' (openWindow ''calculator'' initialState)))) d)"
      and "id' v = Some ''calculator''"
      by auto
    with closed show False by blast
  qed
  from k n[of "''desktop-1''"] n[of "''desktop-2''"] e1 e2 show ?thesis
    by (intro conjI)
qed

section \<open>Sequences of opens\<close>

lemma keys_openWindow:
  "map fst (windows (openWindow i s)) =
     (if i \<in> set (map fst (windows s)) then map fst (windows s) else map fst (windows s) @ [i])"
  by (simp add: openWindow_def AList.update_keys split: option.splits)

lemma keys_fold_openWindow:
  assumes "distinct (map fst (windows s))"
  shows "distinct (map fst (windows (fold openWindow ids s)))
         \<and> set (map fst (windows (fold openWindow ids s))) = set (map fst (windows s)) \<union> set ids"
  using assms
proof (induction ids arbitrary: s)
  case Nil
  then show ?case by simp
next
  case (Cons i ids)
  have d: "distinct (map fst (windows (openWindow i s)))"
    using Cons.prems by (simp add: keys_openWindow)
  have k: "set (map fst (windows (openWindow i s))) = insert i (set (map fst (windows s)))"
    by (auto simp: keys_openWindow)
  from Cons.IH[OF d] k show ?case by auto
qed

text \<open>
  Claim C9.  After any sequence of \<^verbatim>\<open>openWindow\<close> calls on a state with an empty
  store, the number of records is the number of distinct ids of the sequence.
\<close>

theorem openWindow_sequence_record_count:
  assumes "windows s = []"
  shows "length (windows (fold openWindow ids s)) = card (set ids)"
proof -
  have d0: "distinct (map fst (windows s))" using assms by simp
  from keys_fold_openWindow[OF d0, of ids] assms
  have d: "distinct (map fst (windows (fold openWindow ids s)))"
    and k: "set (map fst (windows (fold openWindow ids s))) = set ids"
    by simp_all
  have "length (windows (fold openWindow ids s))
        = length (map fst (windows (fold openWindow ids s)))" by simp
  also have "\<dots> = card (set (map fst (windows (fold openWindow ids s))))"
    using d by (rule distinct_card[symmetric])
  also have "\<dots> = card (set ids)" by (simp only: k)
  finally show ?thesis .
qed

text \<open>
  \<^verbatim>\<open>calculator\<close> is opened twice, \<^verbatim>\<open>settings\<close> once: two records.
\<close>

theorem openWindow_sequence_record_count_witness:
  "windows initialState = [] \<and>
   length (windows (fold openWindow [''calculator'', ''settings'', ''calculator''] initialState))
     = card (set [''calculator'', ''settings'', ''calculator''])
   \<and> length (windows (fold openWindow [''calculator'', ''settings'', ''calculator''] initialState))
     = 2"
proof -
  have h: "windows initialState = []" by (simp add: initialState_def)
  have e: "length (windows (fold openWindow [''calculator'', ''settings'', ''calculator''] initialState))
     = 2"
    by (simp add: demo_defs)
  from openWindow_sequence_record_count[OF h, of "[''calculator'', ''settings'', ''calculator'']"] h e
  show ?thesis by blast
qed

section \<open>Default geometry of a new window\<close>

lemma openWindow_other:
  "j \<noteq> i \<Longrightarrow> map_of (windows (openWindow i s)) j = map_of (windows s) j"
  by (simp add: openWindow_def AList.update_conv' split: option.splits)

lemma openWindow_fresh:
  assumes "map_of (windows s) i = None" and "i \<notin> set objectPrototypeKeys"
  shows "map_of (windows (openWindow i s)) i =
     Some \<lparr> id' = Some i,
            position = Some \<lparr> x = 50 + int (length (windows s)) * 20,
                              y = 50 + int (length (windows s)) * 20 \<rparr>,
            size' = Some \<lparr> width = 800, height = 600 \<rparr>,
            zIndex = Some (nextZIndex s + 1),
            isMinimized = Some False, isMaximized = Some False,
            isResizing = Some False, isDragging = Some False,
            desktopId = Some (activeDesktopId s), opacity = Some 1 \<rparr>"
  using assms by (simp add: openWindow_def truthyEntry_def AList.update_conv')

lemma length_openWindow_fresh:
  assumes "map_of (windows s) i = None"
  shows "length (windows (openWindow i s)) = Suc (length (windows s))"
  using assms by (simp add: openWindow_def update_absent_appends)

text \<open>
  An id that is a property name of \<^verbatim>\<open>Object.prototype\<close> is not treated as new:
  the test \<^verbatim>\<open>if (prev[featureId])\<close> finds the inherited value, and the record
  that is written has no position and no size.
\<close>

lemma openWindow_inherited_key:
  "map_of (windows (openWindow ''toString'' initialState)) ''toString''
   = Some (emptyObject\<lparr> isMinimized := Some False, zIndex := Some 11,
             desktopId := Some ''desktop-1'' \<rparr>)"
  by (simp add: demo_defs)

text \<open>
  Events that neither add nor remove a record: everything but a close and an
  \<^verbatim>\<open>openWindow\<close> on an id without a record.
\<close>

lemma keys_update_present:
  "map_of ws k \<noteq> None \<Longrightarrow> map fst (AList.update k v ws) = map fst ws"
  by (simp add: AList.update_keys map_of_eq_None_iff)

lemma has_record_keys:
  "map fst ws' = map fst ws \<Longrightarrow> (map_of ws' k \<noteq> None) = (map_of ws k \<noteq> None)"
  by (metis map_of_eq_None_iff set_map)

lemma keys_kept_dispatch:
  assumes av: "available s e" and d: "dispatch e s = Inr s'"
    and opens: "\<forall>k. e = Open k \<longrightarrow> map_of (windows s) k \<noteq> None"
    and closes: "\<forall>k. e \<noteq> Close k"
  shows "map fst (windows s') = map fst (windows s)"
proof (cases e)
  case (Open k)
  with opens have "map_of (windows s) k \<noteq> None" by simp
  with d Open show ?thesis
    by (auto simp: openWindow_def keys_update_present)
next
  case (Close k)
  with closes show ?thesis by simp
next
  case (Minimize k)
  with av d show ?thesis by (auto simp: onMinimize_def keys_update_present)
next
  case (Maximize k innerWidth innerHeight)
  with av obtain w where w: "map_of (windows s) k = Some w" by auto
  from d Maximize onMaximize_present[OF w, of innerWidth innerHeight] w show ?thesis
    by (auto simp: keys_update_present)
next
  case (Focus k)
  with av d show ?thesis by (auto simp: onFocus_def keys_update_present)
next
  case (MouseMove k clientX clientY dragOffset)
  with av d show ?thesis
    by (auto simp: handleMouseMove_def updateWindowState_def keys_update_present)
next
  case (MouseUp k)
  with av d show ?thesis
    by (auto simp: handleMouseUp_def updateWindowState_def keys_update_present)
next
  case (SwitchDesktop k)
  with d show ?thesis by (auto simp: onSwitchDesktop_frame)
qed

lemma keys_kept_run:
  assumes "run es s = Some s'"
    and "\<forall>e \<in> set es. (\<forall>k. e = Open k \<longrightarrow> map_of (windows s) k \<noteq> None) \<and> (\<forall>k. e \<noteq> Close k)"
  shows "map fst (windows s') = map fst (windows s)"
  using assms
proof (induction es arbitrary: s)
  case Nil
  then show ?case by simp
next
  case (Cons e es)
  from Cons.prems(1) obtain s1 where av: "available s e" and d: "dispatch e s = Inr s1"
    and r: "run es s1 = Some s'"
    by (rule run_Cons_Some)
  from Cons.prems(2) have here: "\<forall>k. e = Open k \<longrightarrow> map_of (windows s) k \<noteq> None"
    "\<forall>k. e \<noteq> Close k"
    by simp_all
  from av d here have k1: "map fst (windows s1) = map fst (windows s)"
    by (rule keys_kept_dispatch)
  have "\<forall>e \<in> set es. (\<forall>k. e = Open k \<longrightarrow> map_of (windows s1) k \<noteq> None) \<and> (\<forall>k. e \<noteq> Close k)"
    using Cons.prems(2) has_record_keys[OF k1] by simp
  from Cons.IH[OF r this] k1 show ?case by simp
qed

text \<open>
  Claim C5, as amended.  \<^verbatim>\<open>openWindow\<close> on an id that has no record and is not
  a property name of \<^verbatim>\<open>Object.prototype\<close> creates the window with size
  (800, 600) at position (50 + 20 k, 50 + 20 k), where k is the number of records
  in the store at that moment.  When the events that follow such a creation are
  only restores of windows that have a record, minimizes, maximize toggles,
  focuses, drag updates and desktop switches, the next window that is created
  lies (20, 20) further than the default position of the one created before.
  From an empty store the first window is created at (50, 50) and, under the
  same condition, the second at (70, 70).  Nothing is stated for a creation
  that follows a close.
\<close>

theorem openWindow_fresh_default_geometry:
  "(map_of (windows s) i = None \<longrightarrow> i \<notin> set objectPrototypeKeys \<longrightarrow>
      Option.bind (map_of (windows (openWindow i s)) i) position
        = Some \<lparr> x = 50 + 20 * int (length (windows s)), y = 50 + 20 * int (length (windows s)) \<rparr>
      \<and> Option.bind (map_of (windows (openWindow i s)) i) size'
        = Some \<lparr> width = 800, height = 600 \<rparr>)
   \<and> (map_of (windows s) i = None \<longrightarrow> i \<notin> set objectPrototypeKeys \<longrightarrow>
      run es (openWindow i s) = Some s' \<longrightarrow>
      (\<forall>e \<in> set es. (\<forall>k. e = Open k \<longrightarrow> map_of (windows (openWindow i s)) k \<noteq> None)
                    \<and> (\<forall>k. e \<noteq> Close k)) \<longrightarrow>
      map_of (windows s') j = None \<longrightarrow> j \<notin> set objectPrototypeKeys \<longrightarrow>
      Option.bind (map_of (windows (openWindow j s')) j) position
        = Some \<lparr> x = 50 + 20 * int (length (windows s)) + 20,
                 y = 50 + 20 * int (length (windows s)) + 20 \<rparr>
      \<and> Option.bind (map_of (windows (openWindow j s')) j) size'
        = Some \<lparr> width = 800, height = 600 \<rparr>
      \<and> (windows s = [] \<longrightarrow>
           Option.bind (map_of (windows (openWindow i s)) i) position = Some \<lparr> x = 50, y = 50 \<rparr>
           \<and> Option.bind (map_of (windows (openWindow j s')) j) position
               = Some \<lparr> x = 70, y = 70 \<rparr>))"
proof -
  have A: "Option.bind (map_of (windows (openWindow i s)) i) position
        = Some \<lparr> x = 50 + 20 * int (length (windows s)), y = 50 + 20 * int (length (windows s)) \<rparr>
      \<and> Option.bind (map_of (windows (openWindow i s)) i) size'
        = Some \<lparr> width = 800, height = 600 \<rparr>"
    if "map_of (windows s) i = None" "i \<notin> set objectPrototypeKeys" for i s
    using openWindow_fresh[OF that] by simp
  have B: "Option.bind (map_of (windows (openWindow j s')) j) position
        = Some \<lparr> x = 50 + 20 * int (length (windows s)) + 20,
                 y = 50 + 20 * int (length (windows s)) + 20 \<rparr>
      \<and> Option.bind (map_of (windows (openWindow j s')) j) size'
        = Some \<lparr> width = 800, height = 600 \<rparr>"
    if fresh_i: "map_of (windows s) i = None"
      and r: "run es (openWindow i s) = Some s'"
      and kept: "\<forall>e \<in> set es. (\<forall>k. e = Open k \<longrightarrow> map_of (windows (openWindow i s)) k \<noteq> None)
                    \<and> (\<forall>k. e \<noteq> Close k)"
      and fresh_j: "map_of (windows s') j = None" "j \<notin> set objectPrototypeKeys"
  proof -
    from keys_kept_run[OF r kept]
    have "length (map fst (windows s')) = length (map fst (windows (openWindow i s)))"
      by simp
    then have "length (windows s') = Suc (length (windows s))"
      using length_openWindow_fresh[OF fresh_i] by simp
    with A[OF fresh_j] show ?thesis by (simp add: algebra_simps)
  qed
  have C: "Option.bind (map_of (windows (openWindow i s)) i) position = Some \<lparr> x = 50, y = 50 \<rparr>
           \<and> Option.bind (map_of (windows (openWindow j s')) j) position
               = Some \<lparr> x = 70, y = 70 \<rparr>"
    if "windows s = []" "map_of (windows s) i = None" "i \<notin> set objectPrototypeKeys"
      "run es (openWindow i s) = Some s'"
      "\<forall>e \<in> set es. (\<forall>k. e = Open k \<longrightarrow> map_of (windows (openWindow i s)) k \<noteq> None)
                    \<and> (\<forall>k. e \<noteq> Close k)"
      "map_of (windows s') j = None" "j \<notin> set objectPrototypeKeys"
    using A[OF that(2,3)] B[OF that(2,4,5,6,7)] that(1) by simp
  from A[of s i] B C show ?thesis by blast
qed

text \<open>
  \<^verbatim>\<open>calculator\<close> is the first window of a session; it is focused, minimized,
  restored and dragged, the desktop is switched, and \<^verbatim>\<open>settings\<close> is opened.
\<close>

theorem openWindow_fresh_default_geometry_witness:
  "map_of (windows initialState) ''calculator'' = None
   \<and> ''calculator'' \<notin> set objectPrototypeKeys
   \<and> windows initialState = []
   \<and> run [Focus ''calculator'', Minimize ''calculator'', Open ''calculator'',
          MouseMove ''calculator'' 300 200 \<lparr> x = 10, y = 5 \<rparr>, SwitchDesktop ''desktop-2'']
        (openWindow ''calculator'' initialState)
       = Some (onSwitchDesktop ''desktop-2''
           (handleMouseMove ''calculator'' 300 200 \<lparr> x = 10, y = 5 \<rparr>
             (openWindow ''calculator'' (onMinimize ''calculator'' (onFocus ''calculator''
               (openWindow ''calculator'' initialState))))))
   \<and> map_of (windows (onSwitchDesktop ''desktop-2''
           (handleMouseMove ''calculator'' 300 200 \<lparr> x = 10, y = 5 \<rparr>
             (openWindow ''calculator'' (onMinimize ''calculator'' (onFocus ''calculator''
               (openWindow ''calculator'' initialState))))))) ''settings'' = None
   \<and> ''settings'' \<notin> set objectPrototypeKeys
   \<and> Option.bind (map_of (windows (openWindow ''calculator'' initialState)) ''calculator'') position
       = Some \<lparr> x = 50, y = 50 \<rparr>
   \<and> Option.bind (map_of (windows (openWindow ''calculator'' initialState)) ''calculator'') size'
       = Some \<lparr> width = 800, height = 600 \<rparr>
   \<and> Option.bind (map_of (windows (openWindow ''settings'' (onSwitchDesktop ''desktop-2''
           (handleMouseMove ''calculator'' 300 200 \<lparr> x = 10, y = 5 \<rparr>
             (openWindow ''calculator'' (onMinimize ''calculator'' (onFocus ''calculator''
               (openWindow ''calculator'' initialState)))))))) ''settings'') position
       = Some \<lparr> x = 70, y = 70 \<rparr>
   \<and> Option.bind (map_of (windows (openWindow ''settings'' (onSwitchDesktop ''desktop-2''
           (handleMouseMove ''calculator'' 300 200 \<lparr> x = 10, y = 5 \<rparr>
             (openWindow ''calculator'' (onMinimize ''calculator'' (onFocus ''calculator''
               (openWindow ''calculator'' initialState)))))))) ''settings'') size'
       = Some \<lparr> width = 800, height = 600 \<rparr>"
proof -
  have h1: "map_of (windows initialState) ''calculator'' = None"
    and h2: "''calculator'' \<notin> set objectPrototypeKeys"
    and h3: "windows initialState = []"
    and h6: "''settings'' \<notin> set objectPrototypeKeys"
    by (simp_all add: initialState_def objectPrototypeKeys_def)
  have h4: "run [Focus ''calculator'', Minimize ''calculator'', Open ''calculator'',
          MouseMove ''calculator'' 300 200 \<lparr> x = 10, y = 5 \<rparr>, SwitchDesktop ''desktop-2'']
        (openWindow ''calculator'' initialState)
       = Some (onSwitchDesktop ''desktop-2''
           (handleMouseMove ''calculator'' 300 200 \<lparr> x = 10, y = 5 \<rparr>
             (openWindow ''calculator'' (onMinimize ''calculator'' (onFocus ''calculator''
               (openWindow ''calculator'' initialState))))))"
    by (simp add: demo_defs)
  have h5: "map_of (windows (onSwitchDesktop ''desktop-2''
           (handleMouseMove ''calculator'' 300 200 \<lparr> x = 10, y = 5 \<rparr>
             (openWindow ''calculator'' (onMinimize ''calculator'' (onFocus ''calculator''
               (openWindow ''calculator'' initialState))))))) ''settings'' = None"
    by (simp add: demo_defs)
  have kept: "\<forall>e \<in> set [Focus ''calculator'', Minimize ''calculator'', Open ''calculator'',
          MouseMove ''calculator'' 300 200 \<lparr> x = 10, y = 5 \<rparr>, SwitchDesktop ''desktop-2''].
        (\<forall>k. e = Open k \<longrightarrow> map_of (windows (openWindow ''calculator'' initialState)) k \<noteq> None)
        \<and> (\<forall>k. e \<noteq> Close k)"
    by (simp add: demo_defs)
  from openWindow_fresh_default_geometry
         [where s = initialState and i = "''calculator''"
            and es = "[Focus ''calculator'', Minimize ''calculator'', Open ''calculator'',
                MouseMove ''calculator'' 300 200 \<lparr> x = 10, y = 5 \<rparr>, SwitchDesktop ''desktop-2'']"
            and s' = "onSwitchDesktop ''desktop-2''
                (handleMouseMove ''calculator'' 300 200 \<lparr> x = 10, y = 5 \<rparr>
                  (openWindow ''calculator'' (onMinimize ''calculator'' (onFocus ''calculator''
                    (openWindow ''calculator'' initialState)))))"
            and j = "''settings''"]
    h1 h2 h3 h4 h5 h6 kept
  show ?thesis by blast
qed

text \<open>
  The claim as stated fails when a close comes between two opens: after
  \<^verbatim>\<open>calculator\<close> (50, 50) and \<^verbatim>\<open>settings\<close> (70, 70) are opened and
  \<^verbatim>\<open>calculator\<close> is closed, the new window \<^verbatim>\<open>about-atlas\<close> is created at
  (70, 70), on top of \<^verbatim>\<open>settings\<close>, and not at (90, 90).
\<close>

theorem openWindow_stagger_after_close_counterexample:
  "map_of (windows (closeWindow ''calculator''
       (openWindow ''settings'' (openWindow ''calculator'' initialState)))) ''about-atlas'' = None
   \<and> Option.bind (map_of (windows (openWindow ''calculator'' initialState)) ''calculator'') position
       = Some \<lparr> x = 50, y = 50 \<rparr>
   \<and> Option.bind (map_of (windows (openWindow ''settings''
         (openWindow ''calculator'' initialState))) ''settings'') position
       = Some \<lparr> x = 70, y = 70 \<rparr>
   \<and> Option.bind (map_of (windows (openWindow ''about-atlas'' (closeWindow ''calculator''
         (openWindow ''settings'' (openWindow ''calculator'' initialState))))) ''about-atlas'') position
       = Some \<lparr> x = 70, y = 70 \<rparr>"
  by (simp add: demo_defs)

section \<open>The desktop of a window\<close>

lemma desktopId_dispatch_other:
  assumes "e \<noteq> Open i" and "dispatch e s = Inr s'"
    and "map_of (windows s) i = Some w" and "map_of (windows s') i = Some w'"
  shows "desktopId w' = desktopId w"
proof (cases e)
  case (Open j)
  with assms(1) have "i \<noteq> j" by simp
  with assms(2-4) Open show ?thesis by (auto simp: openWindow_other)
next
  case (Close j)
  with assms(2-4) show ?thesis
    by (auto simp: closeWindow_def AList.delete_conv' split: if_splits)
next
  case (Minimize j)
  with assms(2-4) show ?thesis
    by (auto simp: onMinimize_def AList.update_conv' spreadEntry_def spread_fields emptyObject_def
          split: if_splits)
next
  case (Maximize j innerWidth innerHeight)
  with assms(2-4) show ?thesis
    by (auto simp: onMaximize_def AList.update_conv' spreadEntry_def spread_fields
          emptyObject_def Let_def split: if_splits option.splits)
next
  case (Focus j)
  with assms(2-4) show ?thesis
    by (auto simp: onFocus_def AList.update_conv' spreadEntry_def spread_fields emptyObject_def
          split: if_splits)
next
  case (MouseMove j clientX clientY dragOffset)
  with assms(2-4) show ?thesis
    by (auto simp: handleMouseMove_def updateWindowState_def AList.update_conv' spreadEntry_def
          spread_fields emptyObject_def split: if_splits)
next
  case (MouseUp j)
  with assms(2-4) show ?thesis
    by (auto simp: handleMouseUp_def updateWindowState_def AList.update_conv' spreadEntry_def
          spread_fields emptyObject_def split: if_splits)
next
  case (SwitchDesktop j)
  with assms(2-4) show ?thesis by (auto simp: onSwitchDesktop_frame)
qed

text \<open>
  Claim C3, as amended.  A window gets the active desktop as its \<^verbatim>\<open>desktopId\<close>
  when it is created.  \<^verbatim>\<open>openWindow\<close> on an id that has a record clears
  \<^verbatim>\<open>isMinimized\<close>, gives the window the next z-index, makes it the active id,
  and sets its \<^verbatim>\<open>desktopId\<close> to the desktop that is active now.  No other event
  (close, minimize, maximize, focus, drag, desktop switch, \<^verbatim>\<open>openWindow\<close> on
  another id) changes the \<^verbatim>\<open>desktopId\<close> of a record.
\<close>

theorem desktopId_set_by_openWindow:
  "(map_of (windows s0) j = None \<longrightarrow>
      Option.bind (map_of (windows (openWindow j s0)) j) desktopId = Some (activeDesktopId s0))
   \<and> (map_of (windows s) i = Some w \<longrightarrow>
        map_of (windows (openWindow i s)) i
          = Some (w\<lparr> isMinimized := Some False, zIndex := Some (nextZIndex s + 1),
                     desktopId := Some (activeDesktopId s) \<rparr>)
        \<and> activeId (openWindow i s) = Some i)
   \<and> (e \<noteq> Open i \<longrightarrow> dispatch e s = Inr s' \<longrightarrow> map_of (windows s) i = Some w \<longrightarrow>
        map_of (windows s') i = Some w' \<longrightarrow> desktopId w' = desktopId w)"
proof -
  have 1: "Option.bind (map_of (windows (openWindow j s0)) j) desktopId = Some (activeDesktopId s0)"
    if "map_of (windows s0) j = None"
    using that
    by (simp add: openWindow_def AList.update_conv' spreadEntry_None spread_fields
          emptyObject_def)
  have 2: "map_of (windows (openWindow i s)) i
          = Some (w\<lparr> isMinimized := Some False, zIndex := Some (nextZIndex s + 1),
                     desktopId := Some (activeDesktopId s) \<rparr>)
        \<and> activeId (openWindow i s) = Some i"
    if "map_of (windows s) i = Some w"
    using that
    by (simp add: openWindow_def truthyEntry_def spreadEntry_Some spread_restore
          AList.update_conv')
  from 1 2 desktopId_dispatch_other[of e i s s' w w'] show ?thesis by blast
qed

text \<open>
  The claim as stated fails: \<^verbatim>\<open>calculator\<close> is created on \<^verbatim>\<open>desktop-1\<close>, the
  active desktop becomes \<^verbatim>\<open>desktop-2\<close>, and \<^verbatim>\<open>openWindow\<close> on the existing id
  leaves the window with \<^verbatim>\<open>desktopId\<close> \<^verbatim>\<open>desktop-2\<close>.
\<close>

theorem openWindow_moves_desktop_counterexample:
  "Option.bind (map_of (windows (openWindow ''calculator'' initialState)) ''calculator'') desktopId
     = Some ''desktop-1''
   \<and> Option.bind (map_of (windows (openWindow ''calculator''
         (onSwitchDesktop ''desktop-2'' (openWindow ''calculator'' initialState)))) ''calculator'')
         desktopId
     = Some ''desktop-2''"
  by (simp add: demo_defs)


text \<open>
  \<^verbatim>\<open>calculator\<close> is created on the first desktop; on the second desktop it is
  opened again, or minimized.
\<close>

theorem desktopId_set_by_openWindow_witness:
  "map_of (windows initialState) ''calculator'' = None
   \<and> Option.bind (map_of (windows (openWindow ''calculator'' initialState)) ''calculator'') desktopId
       = Some ''desktop-1''
   \<and> map_of (windows (onSwitchDesktop ''desktop-2'' (openWindow ''calculator'' initialState)))
         ''calculator''
       = Some \<lparr> id' = Some ''calculator'', position = Some \<lparr> x = 50, y = 50 \<rparr>,
           size' = Some \<lparr> width = 800, height = 600 \<rparr>, zIndex = Some 11,
           isMinimized = Some False, isMaximized = Some False, isResizing = Some False,
           isDragging = Some False, desktopId = Some ''desktop-1'', opacity = Some 1 \<rparr>
   \<and> map_of (windows (openWindow ''calculator''
         (onSwitchDesktop ''desktop-2'' (openWindow ''calculator'' initialState)))) ''calculator''
       = Some \<lparr> id' = Some ''calculator'', position = Some \<lparr> x = 50, y = 50 \<rparr>,
           size' = Some \<lparr> width = 800, height = 600 \<rparr>, zIndex = Some 12,
           isMinimized = Some False, isMaximized = Some False, isResizing = Some False,
           isDragging = Some False, desktopId = Some ''desktop-2'', opacity = Some 1 \<rparr>
   \<and> Minimize ''calculator'' \<noteq> Open ''calculator''
   \<and> dispatch (Minimize ''calculator'')
         (onSwitchDesktop ''desktop-2'' (openWindow ''calculator'' initialState))
       = Inr (onMinimize ''calculator''
           (onSwitchDesktop ''desktop-2'' (openWindow ''calculator'' initialState)))
   \<and> map_of (windows (onMinimize ''calculator''
         (onSwitchDesktop ''desktop-2'' (openWindow ''calculator'' initialState)))) ''calculator''
       = Some \<lparr> id' = Some ''calculator'', position = Some \<lparr> x = 50, y = 50 \<rparr>,
           size' = Some \<lparr> width = 800, height = 600 \<rparr>, zIndex = Some 11,
           isMinimized = Some True, isMaximized = Some False, isResizing = Some False,
           isDragging = Some False, desktopId = Some ''desktop-1'', opacity = Some 1 \<rparr>"
proof -
  have h0: "map_of (windows initialState) ''calculator'' = None"
    by (simp add: initialState_def)
  have h1: "map_of (windows (onSwitchDesktop ''desktop-2'' (openWindow ''calculator'' initialState)))
         ''calculator''
       = Some \<lparr> id' = Some ''calculator'', position = Some \<lparr> x = 50, y = 50 \<rparr>,
           size' = Some \<lparr> width = 800, height = 600 \<rparr>, zIndex = Some 11,
           isMinimized = Some False, isMaximized = Some False, isResizing = Some False,
           isDragging = Some False, desktopId = Some ''desktop-1'', opacity = Some 1 \<rparr>"
    by (simp add: demo_defs)
  have h2: "Minimize ''calculator'' \<noteq> Open ''calculator''" by simp
  have h3: "dispatch (Minimize ''calculator'')
         (onSwitchDesktop ''desktop-2'' (openWindow ''calculator'' initialState))
       = Inr (onMinimize ''calculator''
           (onSwitchDesktop ''desktop-2'' (openWindow ''calculator'' initialState)))"
    by simp
  have h4: "map_of (windows (onMinimize ''calculator''
         (onSwitchDesktop ''desktop-2'' (openWindow ''calculator'' initialState)))) ''calculator''
       = Some \<lparr> id' = Some ''calculator'', position = Some \<lparr> x = 50, y = 50 \<rparr>,
           size' = Some \<lparr> width = 800, height = 600 \<rparr>, zIndex = Some 11,
           isMinimized = Some True, isMaximized = Some False, isResizing = Some False,
           isDragging = Some False, desktopId = Some ''desktop-1'', opacity = Some 1 \<rparr>"
    by (simp add: demo_defs)
  have n: "nextZIndex (onSwitchDesktop ''desktop-2'' (openWindow ''calculator'' initialState)) = 11"
    "activeDesktopId (onSwitchDesktop ''desktop-2'' (openWindow ''calculator'' initialState))
       = ''desktop-2''"
    "activeDesktopId initialState = ''desktop-1''"
    by (simp_all add: demo_defs)
  from desktopId_set_by_openWindow
         [where ?s0.0 = initialState and j = "''calculator''"
            and s = "onSwitchDesktop ''desktop-2'' (openWindow ''calculator'' initialState)"
            and i = "''calculator''"
            and w = "\<lparr> id' = Some ''calculator'', position = Some \<lparr> x = 50, y = 50 \<rparr>,
                size' = Some \<lparr> width = 800, height = 600 \<rparr>, zIndex = Some 11,
                isMinimized = Some False, isMaximized = Some False, isResizing = Some False,
                isDragging = Some False, desktopId = Some ''desktop-1'', opacity = Some 1 \<rparr>"
            and e = "Minimize ''calculator''"
            and s' = "onMinimize ''calculator''
                (onSwitchDesktop ''desktop-2'' (openWindow ''calculator'' initialState))"
            and w' = "\<lparr> id' = Some ''calculator'', position = Some \<lparr> x = 50, y = 50 \<rparr>,
                size' = Some \<lparr> width = 800, height = 600 \<rparr>, zIndex = Some 11,
                isMinimized = Some True, isMaximized = Some False, isResizing = Some False,
                isDragging = Some False, desktopId = Some ''desktop-1'', opacity = Some 1 \<rparr>"]
    h0 h1 h2 h3 h4 n
  show ?thesis by simp
qed

end
